theory Spec2Isabelle
  imports Complex_Main
begin

section \<open>Vacation balance ledger of holidaybalance.go\<close>

text \<open>
  A shallow embedding of the balance computation of \<^verbatim>\<open>holidaybalance.go\<close>: the work-day
  index built in \<^verbatim>\<open>main\<close>, the loop of \<^verbatim>\<open>main\<close> over the all-day events, the four
  regular expressions that classify an event, and the description merge of
  \<^verbatim>\<open>updateEvent\<close>.

  Conventions.
  \<^item> A calendar date is the number of days since 0001-01-01, the zero value of Go's
    \<^verbatim>\<open>time.Time\<close>. Only events whose \<^verbatim>\<open>Start.Date\<close> and \<^verbatim>\<open>End.Date\<close> parse with the fixed
    width layout \<^verbatim>\<open>2006-01-02\<close> pass \<^verbatim>\<open>listAllDayEvents\<close>; on such strings the
    string comparisons of the source order dates as the day numbers do, and
    \<^verbatim>\<open>mustDate\<close> cannot panic.
  \<^item> \<^verbatim>\<open>float64\<close> is modelled by the real numbers: rounding is not modelled.
  \<^item> A Go string is its list of bytes.
  \<^item> \<^verbatim>\<open>log.Fatal\<close> and a nil pointer dereference end the run; they are values of the
    type \<open>abort\<close>, returned with the ledger as it stood at that moment.
\<close>

subsection \<open>Dates, durations and week days\<close>

type_synonym date = int

text \<open>\<^verbatim>\<open>time.Time.IsZero\<close>: the instant 0001-01-01 00:00:00 UTC.\<close>

definition IsZero :: "date \<Rightarrow> bool" where
  "IsZero t = (t = 0)"

text \<open>A \<^verbatim>\<open>time.Duration\<close> is a count of nanoseconds in an \<^verbatim>\<open>int64\<close>.\<close>

definition Hour :: int where
  "Hour = 3600 * 1000000000"

definition maxDuration :: int where
  "maxDuration = 2 ^ 63 - 1"

definition minDuration :: int where
  "minDuration = - (2 ^ 63)"

text \<open>
  \<^verbatim>\<open>t.Sub(u)\<close> for two dates at midnight UTC: the difference in nanoseconds, and the
  largest or smallest duration when the difference does not fit.
\<close>

definition Sub :: "date \<Rightarrow> date \<Rightarrow> int" where
  "Sub t u =
     (let d = (t - u) * (24 * Hour)
      in if maxDuration < d then maxDuration
         else if d < minDuration then minDuration
         else d)"

text \<open>Go's integer division truncates towards zero.\<close>

definition quot :: "int \<Rightarrow> int \<Rightarrow> int" where
  "quot a b = sgn a * sgn b * (\<bar>a\<bar> div \<bar>b\<bar>)"

text \<open>\<^verbatim>\<open>float64(mustDate(e).Sub(mustDate(b)) / (24 * time.Hour))\<close>, before the conversion.\<close>

definition calDaysBetween :: "date \<Rightarrow> date \<Rightarrow> int" where
  "calDaysBetween b e = quot (Sub e b) (24 * Hour)"

text \<open>
  \<^verbatim>\<open>time.Weekday\<close>: Sunday is 0 and Saturday is 6. Day 0 (0001-01-01) is a Monday.
\<close>

definition Weekday :: "date \<Rightarrow> int" where
  "Weekday d = (d + 1) mod 7"

definition Sunday :: int where
  "Sunday = 0"

definition Saturday :: int where
  "Saturday = 6"

subsection \<open>The work-day index\<close>

text \<open>
  \<^verbatim>\<open>holidays\<close> is a \<^verbatim>\<open>map[string]string\<close> from a date to the holiday's summary. Reading a
  key that is absent gives the empty string.
\<close>

type_synonym holidays = "date \<rightharpoonup> string"

definition holidays_get :: "holidays \<Rightarrow> date \<Rightarrow> string" where
  "holidays_get h d = (case h d of None \<Rightarrow> [] | Some s \<Rightarrow> s)"

text \<open>The test of line 151 that lets the running count advance past day \<open>d\<close>.\<close>

definition is_workday :: "holidays \<Rightarrow> date \<Rightarrow> bool" where
  "is_workday h d =
     (holidays_get h d = [] \<and> Weekday d \<noteq> Sunday \<and> Weekday d \<noteq> Saturday)"

text \<open>
  The loop of lines 148 to 154. \<open>d\<close> is the loop variable and \<open>e\<close> is the day of
  \<^verbatim>\<open>endDate\<close>: the source stops at \<^verbatim>\<open>mustDate(endDate).Add(time.Hour)\<close> exclusive, so
  the day of \<^verbatim>\<open>endDate\<close> itself is the last one visited.
\<close>

function workdays_loop ::
  "holidays \<Rightarrow> date \<Rightarrow> date \<Rightarrow> int \<Rightarrow> (date \<rightharpoonup> int) \<Rightarrow> (date \<rightharpoonup> int)" where
  "workdays_loop h d e n w =
     (if d \<le> e
      then workdays_loop h (d + 1) e (if is_workday h d then n + 1 else n) (w(d \<mapsto> n))
      else w)"
  by pat_completeness auto
termination
  by (relation "measure (\<lambda>(h, d, e, n, w). nat (e + 1 - d))") auto

declare workdays_loop.simps [simp del]

definition build_workdays :: "holidays \<Rightarrow> date \<Rightarrow> date \<Rightarrow> (date \<rightharpoonup> int)" where
  "build_workdays h first lastd = workdays_loop h first lastd 0 Map.empty"

text \<open>\<^verbatim>\<open>workdays[k]\<close>: a key that is absent reads as 0.\<close>

definition workdays_get :: "(date \<rightharpoonup> int) \<Rightarrow> date \<Rightarrow> int" where
  "workdays_get w d = (case w d of None \<Rightarrow> 0 | Some n \<Rightarrow> n)"

text \<open>The working days of the half-open span from \<open>a\<close> to \<open>b\<close>, counted one by one.\<close>

definition workdays_in :: "holidays \<Rightarrow> date \<Rightarrow> date \<Rightarrow> int" where
  "workdays_in h a b = int (length (filter (is_workday h) [a..b - 1]))"

subsection \<open>The regular expressions\<close>

text \<open>\<^verbatim>\<open>\d\<close> and \<^verbatim>\<open>\s\<close> of Go's regexp syntax: ASCII digits, and tab, newline, form feed,
  carriage return and space.\<close>

definition is_digit :: "char \<Rightarrow> bool" where
  "is_digit c = (c \<in> set ''0123456789'')"

definition is_space :: "char \<Rightarrow> bool" where
  "is_space c = (c \<in> set [CHR 0x09, CHR 0x0A, CHR 0x0C, CHR 0x0D, CHR '' ''])"

text \<open>
  A letter of a pattern compiled with \<^verbatim>\<open>(?i)\<close> matches every rune of its case folding
  orbit: its lower and upper case forms, and for \<^verbatim>\<open>s\<close> also U+017F (bytes C5 BF), for
  \<^verbatim>\<open>k\<close> also U+212A (bytes E2 84 AA). \<open>fold_rune p s\<close> consumes one such rune for the
  lower case letter \<open>p\<close> from the front of \<open>s\<close>.
\<close>

definition upper_of :: "char \<Rightarrow> char" where
  "upper_of p =
     (case map_of (zip ''abcdefghijklmnopqrstuvwxyz'' ''ABCDEFGHIJKLMNOPQRSTUVWXYZ'') p of
        None \<Rightarrow> p | Some u \<Rightarrow> u)"

definition fold_rune :: "char \<Rightarrow> string \<Rightarrow> string option" where
  "fold_rune p s =
     (case s of
        [] \<Rightarrow> None
      | c # cs \<Rightarrow>
          if c = p \<or> c = upper_of p then Some cs
          else if p = CHR ''s'' \<and> take 2 s = [CHR 0xC5, CHR 0xBF] then Some (drop 2 s)
          else if p = CHR ''k'' \<and> take 3 s = [CHR 0xE2, CHR 0x84, CHR 0xAA] then Some (drop 3 s)
          else None)"

text \<open>A literal of a \<^verbatim>\<open>(?i)\<close> pattern at the front of the input; the result is the rest.\<close>

fun lit_ci :: "string \<Rightarrow> string \<Rightarrow> string option" where
  "lit_ci [] s = Some s"
| "lit_ci (p # ps) s = (case fold_rune p s of None \<Rightarrow> None | Some r \<Rightarrow> lit_ci ps r)"

text \<open>
  \<^verbatim>\<open>\s+\<close> at the front of the input. In the patterns below a letter follows, which is
  no white space, so a match has consumed the whole run of white space.
\<close>

definition spaces1 :: "string \<Rightarrow> string option" where
  "spaces1 s =
     (case s of
        [] \<Rightarrow> None
      | c # cs \<Rightarrow> if is_space c then Some (dropWhile is_space cs) else None)"

text \<open>An unanchored search tries the pattern at every position from the left.\<close>

fun anywhere :: "(string \<Rightarrow> bool) \<Rightarrow> string \<Rightarrow> bool" where
  "anywhere p [] = p []"
| "anywhere p (c # cs) = (p (c # cs) \<or> anywhere p cs)"

text \<open>\<^verbatim>\<open>(?i)employee\s+start\s+da(y|te)\<close>\<close>

definition reStartDay_at :: "string \<Rightarrow> bool" where
  "reStartDay_at s =
     (case lit_ci ''employee'' s of None \<Rightarrow> False | Some s1 \<Rightarrow>
      case spaces1 s1 of None \<Rightarrow> False | Some s2 \<Rightarrow>
      case lit_ci ''start'' s2 of None \<Rightarrow> False | Some s3 \<Rightarrow>
      case spaces1 s3 of None \<Rightarrow> False | Some s4 \<Rightarrow>
      case lit_ci ''da'' s4 of None \<Rightarrow> False | Some s5 \<Rightarrow>
        lit_ci ''y'' s5 \<noteq> None \<or> lit_ci ''te'' s5 \<noteq> None)"

definition reStartDay :: "string \<Rightarrow> bool" where
  "reStartDay s = anywhere reStartDay_at s"

text \<open>\<^verbatim>\<open>(?i)(holiday|vacation)\<close>\<close>

definition reVacation :: "string \<Rightarrow> bool" where
  "reVacation s =
     anywhere (\<lambda>t. lit_ci ''holiday'' t \<noteq> None \<or> lit_ci ''vacation'' t \<noteq> None) s"

text \<open>\<^verbatim>\<open>(?i)half\s+day\<close>\<close>

definition reHalfDay_at :: "string \<Rightarrow> bool" where
  "reHalfDay_at s =
     (case lit_ci ''half'' s of None \<Rightarrow> False | Some s1 \<Rightarrow>
      case spaces1 s1 of None \<Rightarrow> False | Some s2 \<Rightarrow> lit_ci ''day'' s2 \<noteq> None)"

definition reHalfDay :: "string \<Rightarrow> bool" where
  "reHalfDay s = anywhere reHalfDay_at s"

text \<open>
  \<^verbatim>\<open>(\d\d|100)\s?%\<close>. \<open>percent_tail\<close> is \<^verbatim>\<open>\s?%\<close> at the front of the input.
  \<open>rePercent_at\<close> is the group of a match that starts at the front: the first
  alternative is preferred, the second is tried when the first leads to no match.
  \<open>rePercent\<close> is \<^verbatim>\<open>rePercent.FindStringSubmatch(s)\<close> read at index 1, for the leftmost
  match; \<open>None\<close> is the nil slice.
\<close>

definition percent_tail :: "string \<Rightarrow> bool" where
  "percent_tail s =
     (case s of
        [] \<Rightarrow> False
      | c # cs \<Rightarrow>
          c = CHR ''%'' \<or> (is_space c \<and> (case cs of [] \<Rightarrow> False | d # _ \<Rightarrow> d = CHR ''%'')))"

definition rePercent_at :: "string \<Rightarrow> string option" where
  "rePercent_at s =
     (case s of
        a # b # r \<Rightarrow>
          if is_digit a \<and> is_digit b \<and> percent_tail r then Some [a, b]
          else if take 3 s = ''100'' \<and> percent_tail (drop 3 s) then Some ''100''
          else None
      | _ \<Rightarrow> None)"

fun rePercent :: "string \<Rightarrow> string option" where
  "rePercent [] = None"
| "rePercent (c # cs) =
     (case rePercent_at (c # cs) of None \<Rightarrow> rePercent cs | Some g \<Rightarrow> Some g)"

text \<open>
  \<^verbatim>\<open>strconv.Atoi\<close>: an optional sign and decimal digits; \<open>None\<close> is a non-nil error
  (a syntax error, or a value outside \<^verbatim>\<open>int\<close>, which has 64 bits).
\<close>

definition digit_val :: "char \<Rightarrow> int" where
  "digit_val c = int (of_char c) - 48"

definition atoi_digits :: "string \<Rightarrow> int option" where
  "atoi_digits s =
     (if s \<noteq> [] \<and> list_all is_digit s
      then Some (foldl (\<lambda>n c. 10 * n + digit_val c) 0 s)
      else None)"

definition Atoi :: "string \<Rightarrow> int option" where
  "Atoi s =
     (let r = (case s of
                 [] \<Rightarrow> None
               | c # cs \<Rightarrow>
                   if c = CHR ''+'' then atoi_digits cs
                   else if c = CHR ''-'' then map_option uminus (atoi_digits cs)
                   else atoi_digits s)
      in case r of
           None \<Rightarrow> None
         | Some v \<Rightarrow> if v < - (2 ^ 63) \<or> 2 ^ 63 - 1 < v then None else Some v)"

subsection \<open>Events, the ledger and what a run reports\<close>

text \<open>
  The fields of a \<^verbatim>\<open>calendar.Event\<close> that the computation reads. \<^verbatim>\<open>Start\<close> and \<^verbatim>\<open>End\<close>
  are the days of \<^verbatim>\<open>Start.Date\<close> and \<^verbatim>\<open>End.Date\<close>.
\<close>

record Event =
  Start :: date
  End :: date
  Summary :: string
  Description :: string

text \<open>
  The variables declared in lines 156 to 171, with the zero values Go gives them.
  \<^verbatim>\<open>lastDate\<close> and \<^verbatim>\<open>lastVacationDate\<close> are pointers: \<open>None\<close> is nil. The dates they point
  to are never written through, so the model keeps the date itself.
\<close>

record ledger =
  startDate :: date
  lastDate :: "date option"
  lastVacationDate :: "date option"
  fte :: real
  accrued :: real
  spent :: real

definition initial :: ledger where
  "initial =
     \<lparr>startDate = 0, lastDate = None, lastVacationDate = None,
      fte = 0, accrued = 0, spent = 0\<rparr>"

text \<open>
  The arguments of one call of \<^verbatim>\<open>updateEvent\<close>: the event as it stands at the call
  (with a patched \<^verbatim>\<open>Start\<close> after an overlap) and the four numbers.
\<close>

record snapshot =
  event :: Event
  daysOff :: real
  effDaysOff :: real
  accruedNow :: real
  spentNow :: real

datatype abort =
    NoStartDate  \<comment> \<open>\<^verbatim>\<open>log.Fatal\<close> of line 205\<close>
  | NilPointer   \<comment> \<open>\<^verbatim>\<open>lastDate.Date\<close> of line 208 with \<^verbatim>\<open>lastDate\<close> nil\<close>

definition HolidaysPerCalendarDay :: real where
  "HolidaysPerCalendarDay = 25 / 365"

subsection \<open>One iteration of the loop of main\<close>

text \<open>Lines 174 to 177: the accrual up to the end of the event.\<close>

definition accrue :: "ledger \<Rightarrow> Event \<Rightarrow> ledger" where
  "accrue s ev =
     (case lastDate s of
        None \<Rightarrow> s
      | Some ld \<Rightarrow>
          s\<lparr>accrued := accrued s
                 + fte s * HolidaysPerCalendarDay * of_int (calDaysBetween ld (End ev)),
            lastDate := Some (End ev)\<rparr>)"

text \<open>Lines 186 to 197: the percentage of an employee start entry.\<close>

definition start_fte :: "Event \<Rightarrow> real \<Rightarrow> real" where
  "start_fte ev old =
     (let m = (case rePercent (Summary ev) of
                 None \<Rightarrow> rePercent (Description ev)
               | Some g \<Rightarrow> Some g)
      in case m of
           None \<Rightarrow> 1
         | Some g \<Rightarrow>
             (case Atoi g of
                None \<Rightarrow> old
              | Some v \<Rightarrow> if v \<le> 100 then of_int v / 100 else old))"

text \<open>Lines 180 to 200: an employee start entry, after the accrual.\<close>

definition start_event :: "ledger \<Rightarrow> Event \<Rightarrow> ledger \<times> snapshot option" where
  "start_event s ev =
     (let s1 = (if IsZero (startDate s) then s\<lparr>lastDate := Some (Start ev)\<rparr> else s);
          s2 = s1\<lparr>startDate := Start ev\<rparr>;
          s3 = s2\<lparr>fte := start_fte ev (fte s2)\<rparr>
      in (s3, Some \<lparr>event = ev, daysOff = 0, effDaysOff = 0,
                    accruedNow = accrued s3, spentNow = spent s3\<rparr>))"

text \<open>Lines 213 to 216: the start of a booking that overlaps the last one is moved.\<close>

definition patch_start :: "ledger \<Rightarrow> Event \<Rightarrow> Event" where
  "patch_start s ev =
     (case lastVacationDate s of
        None \<Rightarrow> ev
      | Some lv \<Rightarrow> if Start ev < lv then ev\<lparr>Start := lv\<rparr> else ev)"

text \<open>Lines 219 to 228: the days off of a (patched) booking and what they cost.\<close>

definition days_off :: "(date \<rightharpoonup> int) \<Rightarrow> Event \<Rightarrow> real" where
  "days_off workdays ev = of_int (workdays_get workdays (End ev) - workdays_get workdays (Start ev))"

definition eff_days_off :: "(date \<rightharpoonup> int) \<Rightarrow> real \<Rightarrow> Event \<Rightarrow> real" where
  "eff_days_off workdays f ev =
     (let calDays = (of_int (calDaysBetween (Start ev) (End ev)) :: real)
      in if 5 * f \<le> calDays then f * days_off workdays ev
         else if calDays < 1.01 \<and> reHalfDay (Summary ev) then 0.5
         else days_off workdays ev)"

text \<open>Lines 204 to 232: a vacation entry, after the accrual.\<close>

definition vacation_event ::
  "(date \<rightharpoonup> int) \<Rightarrow> ledger \<Rightarrow> Event \<Rightarrow> abort \<times> ledger + ledger \<times> snapshot option" where
  "vacation_event workdays s ev =
     (if IsZero (startDate s) then Inl (NoStartDate, s)
      else case lastDate s of
        None \<Rightarrow> Inl (NilPointer, s)
      | Some ld \<Rightarrow>
          if End ev < ld then Inr (s, None)
          else
            let ev1 = patch_start s ev;
                s1 = s\<lparr>lastVacationDate := Some (End ev1)\<rparr>;
                s2 = s1\<lparr>spent := spent s1 + eff_days_off workdays (fte s1) ev1\<rparr>
            in Inr (s2, Some \<lparr>event = ev1, daysOff = days_off workdays ev1,
                              effDaysOff = eff_days_off workdays (fte s1) ev1,
                              accruedNow = accrued s2, spentNow = spent s2\<rparr>))"

text \<open>
  The body of the loop of lines 173 to 234 for one event: the next ledger and the call
  of \<^verbatim>\<open>updateEvent\<close> it makes, if any, or the abort with the ledger at that moment.
\<close>

definition step ::
  "(date \<rightharpoonup> int) \<Rightarrow> ledger \<Rightarrow> Event \<Rightarrow> abort \<times> ledger + ledger \<times> snapshot option" where
  "step workdays s ev =
     (let s1 = accrue s ev
      in if reStartDay (Summary ev) then Inr (start_event s1 ev)
         else if reVacation (Summary ev) then vacation_event workdays s1 ev
         else Inr (s1, None))"

text \<open>The loop: the ledger after the last event and the calls of \<^verbatim>\<open>updateEvent\<close> in order.\<close>

fun run ::
  "(date \<rightharpoonup> int) \<Rightarrow> ledger \<Rightarrow> Event list \<Rightarrow> abort \<times> ledger + ledger \<times> snapshot list" where
  "run workdays s [] = Inr (s, [])"
| "run workdays s (ev # evs) =
     (case step workdays s ev of
        Inl a \<Rightarrow> Inl a
      | Inr (s1, out) \<Rightarrow>
          (case run workdays s1 evs of
             Inl a \<Rightarrow> Inl a
           | Inr (s2, outs) \<Rightarrow> Inr (s2, (case out of None \<Rightarrow> [] | Some x \<Rightarrow> [x]) @ outs)))"

text \<open>
  Lines 137 to 142: \<^verbatim>\<open>endDate\<close>, the latest end among the events, starting from the
  start of the first event.
\<close>

definition endDate :: "Event \<Rightarrow> Event list \<Rightarrow> date" where
  "endDate ev0 events = foldl (\<lambda>e v. if e < End v then End v else e) (Start ev0) events"

text \<open>
  \<^verbatim>\<open>main\<close> from line 134 on, for the events \<^verbatim>\<open>listAllDayEvents\<close> returned (sorted by start
  date): \<open>None\<close> is the \<^verbatim>\<open>log.Fatalf\<close> of line 135, \<open>ev0\<close> is \<^verbatim>\<open>events[0]\<close>.
\<close>

definition main_loop ::
  "holidays \<Rightarrow> Event list \<Rightarrow> (abort \<times> ledger + ledger \<times> snapshot list) option" where
  "main_loop h events =
     (case events of
        [] \<Rightarrow> None
      | ev0 # _ \<Rightarrow>
          Some (run (build_workdays h (Start ev0) (endDate ev0 events)) initial events))"

subsection \<open>The description merge of updateEvent\<close>

text \<open>\<^verbatim>\<open>strings.Split(s, "\n")\<close>: the pieces between newlines; one empty piece for \<^verbatim>\<open>""\<close>.\<close>

fun Split_nl :: "string \<Rightarrow> string list" where
  "Split_nl [] = [[]]"
| "Split_nl (c # cs) =
     (if c = CHR 0x0A then [] # Split_nl cs
      else (case Split_nl cs of [] \<Rightarrow> [[c]] | l # ls \<Rightarrow> (c # l) # ls))"

text \<open>\<^verbatim>\<open>strings.Join(lines, "\n")\<close>\<close>

fun Join_nl :: "string list \<Rightarrow> string" where
  "Join_nl [] = []"
| "Join_nl [l] = l"
| "Join_nl (l # ls) = l @ CHR 0x0A # Join_nl ls"

definition HasPrefix :: "string \<Rightarrow> string \<Rightarrow> bool" where
  "HasPrefix s p = (take (length p) s = p)"

text \<open>
  The format of line 246 with its seven arguments already rendered: the two date
  strings and the five numbers as \<^verbatim>\<open>%.1f\<close> prints them.
\<close>

definition balanceline ::
  "string \<Rightarrow> string \<Rightarrow> string \<Rightarrow> string \<Rightarrow> string \<Rightarrow> string \<Rightarrow> string \<Rightarrow> string" where
  "balanceline sd ed d e a sp b =
     ''vacation from '' @ sd @ '' to '' @ ed @ '': '' @ d @ '' days (effective '' @ e
       @ ''), accrued '' @ a @ '', spent '' @ sp @ '' balance '' @ b"

text \<open>Lines 254 to 259: \<^verbatim>\<open>newDescr\<close> from the event's description and the balance line.\<close>

definition newDescr :: "string \<Rightarrow> string \<Rightarrow> string" where
  "newDescr description line =
     (let lines = Split_nl description;
          lines1 = (if 0 < length lines \<and> HasPrefix (last lines) ''vacation from ''
                    then butlast lines else lines)
      in Join_nl (lines1 @ [line]))"

section \<open>Properties\<close>

subsection \<open>Day differences\<close>

lemma quot_mult_right: "0 < c \<Longrightarrow> quot (k * c) c = k"
proof -
  assume c: "0 < c"
  have "\<bar>k * c\<bar> div \<bar>c\<bar> = \<bar>k\<bar>"
    using c by (simp add: abs_mult)
  moreover have "sgn (k * c) = sgn k"
    using c by (simp add: sgn_mult)
  moreover have "sgn c = 1"
    using c by simp
  ultimately show ?thesis
    by (simp add: quot_def mult_sgn_abs)
qed

lemma calDaysBetween_closed:
  "calDaysBetween b e = max (- 106751) (min 106751 (e - b))"
proof -
  have day: "24 * Hour = 86400000000000" by (simp add: Hour_def)
  consider "106751 < e - b" | "e - b < - 106751" | "- 106751 \<le> e - b" "e - b \<le> 106751"
    by linarith
  then show ?thesis
  proof cases
    case 1
    then have "maxDuration < (e - b) * (24 * Hour)"
      unfolding day by (simp add: maxDuration_def)
    then have "Sub e b = maxDuration"
      by (simp add: Sub_def Let_def)
    moreover have "quot maxDuration (24 * Hour) = 106751"
      unfolding day by (simp add: quot_def maxDuration_def)
    ultimately show ?thesis using 1 by (simp add: calDaysBetween_def)
  next
    case 2
    then have lt: "(e - b) * (24 * Hour) < minDuration"
      unfolding day by (simp add: minDuration_def)
    have "minDuration < maxDuration"
      by (simp add: minDuration_def maxDuration_def)
    with lt have "\<not> maxDuration < (e - b) * (24 * Hour)"
      by linarith
    with lt have "Sub e b = minDuration"
      by (simp add: Sub_def Let_def)
    moreover have "quot minDuration (24 * Hour) = - 106751"
      unfolding day by (simp add: quot_def minDuration_def)
    ultimately show ?thesis using 2 by (simp add: calDaysBetween_def)
  next
    case 3
    then have "\<not> maxDuration < (e - b) * (24 * Hour)" "\<not> (e - b) * (24 * Hour) < minDuration"
      unfolding day by (simp_all add: maxDuration_def minDuration_def)
    then have "Sub e b = (e - b) * (24 * Hour)"
      by (simp add: Sub_def Let_def)
    moreover have "quot ((e - b) * (24 * Hour)) (24 * Hour) = e - b"
      by (rule quot_mult_right) (simp add: day)
    ultimately show ?thesis using 3 by (simp add: calDaysBetween_def)
  qed
qed


lemma calDaysBetween_nonneg: "b \<le> e \<Longrightarrow> 0 \<le> calDaysBetween b e"
  by (simp add: calDaysBetween_closed)

lemma calDaysBetween_le_one: "e \<le> b + 1 \<Longrightarrow> calDaysBetween b e \<le> 1"
  by (simp add: calDaysBetween_closed)

subsection \<open>The work-day index\<close>

lemma workdays_in_empty: "b \<le> a \<Longrightarrow> workdays_in h a b = 0"
  by (simp add: workdays_in_def)

lemma workdays_in_first:
  "a < b \<Longrightarrow> workdays_in h a b = (if is_workday h a then 1 else 0) + workdays_in h (a + 1) b"
  by (simp add: workdays_in_def upto_rec1 [of a "b - 1"])

lemma workdays_in_card:
  "workdays_in h a b = int (card {x. a \<le> x \<and> x < b \<and> is_workday h x})"
proof -
  have "{x. a \<le> x \<and> x < b \<and> is_workday h x} = {x. is_workday h x} \<inter> set [a..b - 1]"
    by auto
  then show ?thesis
    by (simp add: workdays_in_def distinct_length_filter)
qed

lemma workdays_in_split:
  "a \<le> b \<Longrightarrow> b \<le> c \<Longrightarrow> workdays_in h a c = workdays_in h a b + workdays_in h b c"
proof -
  assume ab: "a \<le> b" and bc: "b \<le> c"
  have "{x. a \<le> x \<and> x < c \<and> is_workday h x}
      = {x. a \<le> x \<and> x < b \<and> is_workday h x} \<union> {x. b \<le> x \<and> x < c \<and> is_workday h x}"
    using ab bc by auto
  moreover have "{x. a \<le> x \<and> x < b \<and> is_workday h x} \<inter> {x. b \<le> x \<and> x < c \<and> is_workday h x} = {}"
    by auto
  moreover have "finite {x. a \<le> x \<and> x < b \<and> is_workday h x}"
    by (rule finite_subset [of _ "{a..<b}"]) auto
  moreover have "finite {x. b \<le> x \<and> x < c \<and> is_workday h x}"
    by (rule finite_subset [of _ "{b..<c}"]) auto
  ultimately show ?thesis
    by (simp add: workdays_in_card card_Un_disjoint)
qed

lemma workdays_loop_lookup:
  "workdays_loop h d e n w x =
     (if d \<le> x \<and> x \<le> e then Some (n + workdays_in h d x) else w x)"
proof (induction h d e n w rule: workdays_loop.induct)
  case (1 h d e n w)
  show ?case
  proof (cases "d \<le> e")
    case False
    then show ?thesis by (subst workdays_loop.simps) auto
  next
    case True
    define n1 where "n1 = (if is_workday h d then n + 1 else n)"
    have "workdays_loop h d e n w x = workdays_loop h (d + 1) e n1 (w(d \<mapsto> n)) x"
      unfolding n1_def using True by (subst workdays_loop.simps) (simp only: if_True)
    also have "\<dots> = (if d + 1 \<le> x \<and> x \<le> e then Some (n1 + workdays_in h (d + 1) x)
                     else (w(d \<mapsto> n)) x)"
      unfolding n1_def by (rule 1 [OF True])
    also have "\<dots> = (if d \<le> x \<and> x \<le> e then Some (n + workdays_in h d x) else w x)"
    proof (cases "x = d")
      case True
      with \<open>d \<le> e\<close> show ?thesis by (simp add: workdays_in_empty)
    next
      case False
      then show ?thesis
        by (auto simp: n1_def workdays_in_first [of d x])
    qed
    finally show ?thesis .
  qed
qed

lemma build_workdays_lookup:
  "build_workdays h first lastd x =
     (if first \<le> x \<and> x \<le> lastd then Some (workdays_in h first x) else None)"
  by (simp add: build_workdays_def workdays_loop_lookup)

lemma workdays_get_built:
  "first \<le> x \<Longrightarrow> x \<le> lastd \<Longrightarrow>
     workdays_get (build_workdays h first lastd) x = workdays_in h first x"
  by (simp add: workdays_get_def build_workdays_lookup)

lemma workdays_get_diff:
  "first \<le> a \<Longrightarrow> a \<le> b \<Longrightarrow> b \<le> lastd \<Longrightarrow>
     workdays_get (build_workdays h first lastd) b - workdays_get (build_workdays h first lastd) a
       = workdays_in h a b"
  by (simp add: workdays_get_built workdays_in_split [of first a b])

text \<open>
  Claim C6, as amended. For every date \<open>a\<close> of the built range, the index holds the
  number of days of the range strictly before \<open>a\<close> that are neither Saturday nor
  Sunday and whose entry in the holiday map is the empty string (a date that is no key
  of the map, or a key whose label is empty); and for two dates \<open>a \<le> b\<close> of the range
  the difference of their indices is the number of such days in the half-open span from
  \<open>a\<close> to \<open>b\<close>.
\<close>

theorem workday_index:
  assumes "first \<le> a" and "a \<le> b" and "b \<le> lastd"
  shows "workdays_get (build_workdays h first lastd) a
           = int (card {x. first \<le> x \<and> x < a \<and> Weekday x \<noteq> Saturday \<and> Weekday x \<noteq> Sunday
                           \<and> holidays_get h x = []})
         \<and> workdays_get (build_workdays h first lastd) b
             - workdays_get (build_workdays h first lastd) a
           = int (card {x. a \<le> x \<and> x < b \<and> Weekday x \<noteq> Saturday \<and> Weekday x \<noteq> Sunday
                           \<and> holidays_get h x = []})"
proof -
  have same: "\<And>lo hi. {x. lo \<le> x \<and> x < hi \<and> Weekday x \<noteq> Saturday \<and> Weekday x \<noteq> Sunday
                           \<and> holidays_get h x = []}
                   = {x. lo \<le> x \<and> x < hi \<and> is_workday h x}"
    by (auto simp: is_workday_def)
  have at_a: "workdays_get (build_workdays h first lastd) a = workdays_in h first a"
    using assms by (simp add: workdays_get_built)
  have diff: "workdays_get (build_workdays h first lastd) b
             - workdays_get (build_workdays h first lastd) a = workdays_in h a b"
    using assms by (rule workdays_get_diff)
  show ?thesis
    unfolding same workdays_in_card [symmetric] using at_a diff by (rule conjI)
qed

text \<open>
  The claim as it was stated counts the days that are no key of the holiday map. A key
  with an empty label is a key, and line 151 still counts its day as a working day:
  Monday 2024-01-08 (day 738892) here.
\<close>

lemma build_example:
  "workdays_get (build_workdays [738892 \<mapsto> ''''] 738892 738893) 738893 = 1"
  by (simp add: workdays_get_def build_workdays_lookup workdays_in_def is_workday_def
      holidays_get_def Weekday_def Sunday_def Saturday_def upto_rec1)

theorem workday_index_counterexample:
  "workdays_get (build_workdays [738892 \<mapsto> ''''] 738892 738893) 738893
     \<noteq> int (card {x. 738892 \<le> x \<and> x < 738893 \<and> Weekday x \<noteq> Saturday \<and> Weekday x \<noteq> Sunday
                     \<and> x \<notin> dom [738892 \<mapsto> '''']})"
proof -
  have none: "{x::int. 738892 \<le> x \<and> x < 738893 \<and> Weekday x \<noteq> Saturday \<and> Weekday x \<noteq> Sunday
                     \<and> x \<notin> dom [738892 \<mapsto> '''']} = {}"
    by auto
  show ?thesis
    unfolding none build_example by simp
qed

theorem workday_index_witness:
  "4 = int (card {x. 738885 \<le> x \<and> x < 738892 \<and> Weekday x \<noteq> Saturday \<and> Weekday x \<noteq> Sunday
                           \<and> holidays_get [738885 \<mapsto> ''New Year''] x = []})
   \<and> 8 - 4 = int (card {x. 738892 \<le> x \<and> x < 738896 \<and> Weekday x \<noteq> Saturday \<and> Weekday x \<noteq> Sunday
                           \<and> holidays_get [738885 \<mapsto> ''New Year''] x = []})"
proof -
  have a: "workdays_get (build_workdays [738885 \<mapsto> ''New Year''] 738885 738896) 738892 = 4"
    by (simp add: workdays_get_def build_workdays_lookup workdays_in_def is_workday_def
      holidays_get_def Weekday_def Sunday_def Saturday_def upto_rec1)
  have b: "workdays_get (build_workdays [738885 \<mapsto> ''New Year''] 738885 738896) 738896 = 8"
    by (simp add: workdays_get_def build_workdays_lookup workdays_in_def is_workday_def
      holidays_get_def Weekday_def Sunday_def Saturday_def upto_rec1)
  have "(738885::int) \<le> 738892" and "(738892::int) \<le> 738896" and "(738896::int) \<le> 738896"
    by simp_all
  from workday_index [OF this, of "[738885 \<mapsto> ''New Year'']"]
  show ?thesis
    unfolding a b .
qed

subsection \<open>Single steps of the ledger\<close>

lemma accrue_None: "lastDate s = None \<Longrightarrow> accrue s ev = s"
  by (simp add: accrue_def)

lemma accrue_Some:
  "lastDate s = Some ld \<Longrightarrow>
     accrue s ev = s\<lparr>accrued := accrued s
                         + fte s * HolidaysPerCalendarDay * of_int (calDaysBetween ld (End ev)),
                     lastDate := Some (End ev)\<rparr>"
  by (simp add: accrue_def)

lemma accrue_frame:
  "startDate (accrue s ev) = startDate s" "fte (accrue s ev) = fte s"
  "spent (accrue s ev) = spent s" "lastVacationDate (accrue s ev) = lastVacationDate s"
  by (simp_all add: accrue_def split: option.splits)

lemma step_ignored:
  "\<not> reStartDay (Summary ev) \<Longrightarrow> \<not> reVacation (Summary ev) \<Longrightarrow>
     step workdays s ev = Inr (accrue s ev, None)"
  by (simp add: step_def)

lemma step_start:
  "reStartDay (Summary ev) \<Longrightarrow> step workdays s ev = Inr (start_event (accrue s ev) ev)"
  by (simp add: step_def)

lemma step_vacation:
  "\<not> reStartDay (Summary ev) \<Longrightarrow> reVacation (Summary ev) \<Longrightarrow>
     step workdays s ev = vacation_event workdays (accrue s ev) ev"
  by (simp add: step_def)

lemma cls_lunch: "\<not> reStartDay ''Team lunch''" "\<not> reVacation ''Team lunch''"
  by code_simp+

lemma cls_start: "reStartDay ''Employee start date''" "rePercent ''Employee start date'' = None"
  by code_simp+

lemma cls_vacation: "\<not> reStartDay ''vacation''" "reVacation ''vacation''" "\<not> reHalfDay ''vacation''"
  by code_simp+

text \<open>
  Claim C4, as amended. A marker whose summary matches neither the employee start
  pattern nor the vacation pattern leaves \<open>spent\<close>, \<open>fte\<close>, \<open>startDate\<close> and
  \<open>lastVacationDate\<close> as they were and reports nothing. The accrual of lines 174 to 177
  still runs for it: when \<open>lastDate\<close> is set, \<open>accrued\<close> grows by the accrual from
  \<open>lastDate\<close> to the end of the marker and \<open>lastDate\<close> becomes that end; when
  \<open>lastDate\<close> is nil the whole ledger is unchanged.
\<close>

theorem ignored_marker:
  assumes "\<not> reStartDay (Summary m)" and "\<not> reVacation (Summary m)"
  shows "\<exists>s'. step workdays s m = Inr (s', None)
           \<and> spent s' = spent s \<and> fte s' = fte s \<and> startDate s' = startDate s
           \<and> lastVacationDate s' = lastVacationDate s
           \<and> (case lastDate s of
                 None \<Rightarrow> s' = s
               | Some ld \<Rightarrow>
                   accrued s' = accrued s
                      + fte s * HolidaysPerCalendarDay * of_int (calDaysBetween ld (End m))
                   \<and> lastDate s' = Some (End m))"
proof -
  have "step workdays s m = Inr (accrue s m, None)"
    using assms by (rule step_ignored)
  moreover have "case lastDate s of
                 None \<Rightarrow> accrue s m = s
               | Some ld \<Rightarrow>
                   accrued (accrue s m) = accrued s
                      + fte s * HolidaysPerCalendarDay * of_int (calDaysBetween ld (End m))
                   \<and> lastDate (accrue s m) = Some (End m)"
    by (simp add: accrue_def split: option.splits)
  ultimately show ?thesis
    by (simp add: accrue_frame)
qed

text \<open>
  The claim as it was stated has \<open>accrued\<close> and \<open>lastDate\<close> unchanged too. After an
  employee start on 2024-01-01 at 100 percent, an ignored entry that ends on 2024-01-04
  moves both.
\<close>

theorem ignored_marker_counterexample:
  "step Map.empty
     \<lparr>startDate = 738885, lastDate = Some 738885, lastVacationDate = None,
      fte = 1, accrued = 0, spent = 0\<rparr>
     \<lparr>Start = 738887, End = 738888, Summary = ''Team lunch'', Description = ''''\<rparr>
   = Inr (\<lparr>startDate = 738885, lastDate = Some 738888, lastVacationDate = None,
           fte = 1, accrued = 15 / 73, spent = 0\<rparr>, None)"
  by (simp add: step_ignored cls_lunch accrue_def HolidaysPerCalendarDay_def
      calDaysBetween_closed)

theorem ignored_marker_witness:
  "\<exists>s'. step Map.empty
     \<lparr>startDate = 738885, lastDate = Some 738885, lastVacationDate = None,
      fte = 1, accrued = 0, spent = 0\<rparr>
     \<lparr>Start = 738887, End = 738888, Summary = ''Team lunch'', Description = ''''\<rparr>
       = Inr (s', None)
     \<and> spent s' = 0 \<and> fte s' = 1 \<and> startDate s' = 738885 \<and> lastVacationDate s' = None
     \<and> accrued s' = 15 / 73 \<and> lastDate s' = Some 738888"
  using ignored_marker [of "\<lparr>Start = 738887, End = 738888, Summary = ''Team lunch'', Description = ''''\<rparr>"
      Map.empty "\<lparr>startDate = 738885, lastDate = Some 738885, lastVacationDate = None,
      fte = 1, accrued = 0, spent = 0\<rparr>"]
  by (simp add: cls_lunch HolidaysPerCalendarDay_def calDaysBetween_closed)

lemma run_append:
  "run workdays s (xs @ ys) =
     (case run workdays s xs of
        Inl a \<Rightarrow> Inl a
      | Inr (s1, o1) \<Rightarrow>
          (case run workdays s1 ys of
             Inl a \<Rightarrow> Inl a
           | Inr (s2, o2) \<Rightarrow> Inr (s2, o1 @ o2)))"
  by (induction xs arbitrary: s) (auto split: sum.splits option.splits)

lemma run_ignored_before_start:
  "lastDate s = None \<Longrightarrow>
   (\<forall>e \<in> set pre. \<not> reStartDay (Summary e) \<and> \<not> reVacation (Summary e)) \<Longrightarrow>
     run workdays s pre = Inr (s, [])"
  by (induction pre) (simp_all add: step_ignored accrue_None)

text \<open>
  Claim C9. When the first marker that is not ignored is a vacation marker (no
  employee start marker has been seen, \<open>startDate\<close> is still the zero time), the run
  ends in the \<^verbatim>\<open>log.Fatal\<close> of line 205, and the ledger at that moment is the initial
  ledger: neither this marker nor an earlier one has changed a field.
\<close>

theorem vacation_before_start_aborts:
  assumes "\<forall>e \<in> set pre. \<not> reStartDay (Summary e) \<and> \<not> reVacation (Summary e)"
    and "\<not> reStartDay (Summary v)" and "reVacation (Summary v)"
  shows "run workdays initial (pre @ v # post) = Inl (NoStartDate, initial)"
proof -
  have "run workdays initial pre = Inr (initial, [])"
    using assms(1) by (intro run_ignored_before_start) (simp_all add: initial_def)
  moreover have "step workdays initial v = Inl (NoStartDate, initial)"
    using assms(2,3)
    by (simp add: step_vacation accrue_None vacation_event_def IsZero_def initial_def)
  ultimately show ?thesis
    by (simp add: run_append)
qed

theorem vacation_before_start_aborts_witness:
  "run Map.empty initial
     [\<lparr>Start = 738880, End = 738881, Summary = ''Team lunch'', Description = ''''\<rparr>,
      \<lparr>Start = 738892, End = 738893, Summary = ''vacation'', Description = ''''\<rparr>,
      \<lparr>Start = 738895, End = 738896, Summary = ''Employee start date'', Description = ''''\<rparr>]
   = Inl (NoStartDate, initial)"
  using vacation_before_start_aborts
    [of "[\<lparr>Start = 738880, End = 738881, Summary = ''Team lunch'', Description = ''''\<rparr>]"
        "\<lparr>Start = 738892, End = 738893, Summary = ''vacation'', Description = ''''\<rparr>"
        Map.empty
        "[\<lparr>Start = 738895, End = 738896, Summary = ''Employee start date'', Description = ''''\<rparr>]"]
  by (simp add: cls_lunch cls_vacation)

text \<open>
  After an employee start the test of line 208 compares \<open>lastDate\<close> with the end of the
  event, and line 176 has just set \<open>lastDate\<close> to that end: the test is false, and
  every vacation marker is patched, charged and reported.
\<close>

lemma vacation_event_reported:
  assumes "\<not> IsZero (startDate s)" and "lastDate s = Some ld"
    and "\<not> reStartDay (Summary m)" and "reVacation (Summary m)"
  shows "step workdays s m =
     (let s1 = accrue s m; m1 = patch_start s1 m
      in Inr (s1\<lparr>lastVacationDate := Some (End m),
                 spent := spent s1 + eff_days_off workdays (fte s1) m1\<rparr>,
              Some \<lparr>event = m1, daysOff = days_off workdays m1,
                    effDaysOff = eff_days_off workdays (fte s1) m1,
                    accruedNow = accrued s1,
                    spentNow = spent s1 + eff_days_off workdays (fte s1) m1\<rparr>))"
proof -
  have "End (patch_start (accrue s m) m) = End m"
    by (simp add: patch_start_def split: option.splits)
  then show ?thesis
    using assms
    by (simp add: step_vacation vacation_event_def accrue_Some accrue_frame Let_def)
qed

text \<open>
  Claim C1, as amended. For a vacation marker \<open>m\<close> processed after an employee start,
  when \<open>lastVacationDate\<close> is set and lies after the end of \<open>m\<close>, the step does not
  abort and the accrual has run for \<open>m\<close> as for every marker: \<open>accrued\<close> has grown by
  the accrual from \<open>lastDate\<close> to the end of \<open>m\<close> (a negative amount when \<open>m\<close> ends
  before \<open>lastDate\<close>), \<open>lastDate\<close> is the end of \<open>m\<close>, and \<open>fte\<close> and \<open>startDate\<close>
  are unchanged.
\<close>

theorem overlapped_vacation_accrues:
  assumes "\<not> reStartDay (Summary m)" and "reVacation (Summary m)"
    and "\<not> IsZero (startDate s)" and "lastDate s = Some ld"
    and "lastVacationDate s = Some lv" and "End m < lv"
  shows "\<exists>s' out. step workdays s m = Inr (s', out)
           \<and> accrued s' = accrued s
                 + fte s * HolidaysPerCalendarDay * of_int (calDaysBetween ld (End m))
           \<and> lastDate s' = Some (End m) \<and> fte s' = fte s \<and> startDate s' = startDate s"
  using assms(4)
  by (simp add: vacation_event_reported [OF assms(3,4,1,2)] Let_def accrue_Some)

lemmas ledger_eval =
  step_def accrue_def start_event_def start_fte_def vacation_event_def patch_start_def
  days_off_def eff_days_off_def IsZero_def HolidaysPerCalendarDay_def calDaysBetween_closed
  workdays_get_def build_workdays_lookup workdays_in_def is_workday_def holidays_get_def
  Weekday_def Sunday_def Saturday_def upto_rec1 initial_def Let_def

lemma cls_start10:
  "reStartDay ''Employee start date 10%''" "rePercent ''Employee start date 10%'' = Some ''10''"
  "Atoi ''10'' = Some 10"
  by code_simp+

lemma cls_half:
  "\<not> reStartDay ''vacation half day''" "reVacation ''vacation half day''"
  "reHalfDay ''vacation half day''"
  by code_simp+

text \<open>
  The claim as it was stated has such a marker skipped with \<open>accrued\<close>, \<open>spent\<close> and
  \<open>lastVacationDate\<close> unchanged and nothing reported. After an employee start on
  2024-01-01 and a vacation from 2024-01-08 to 2024-01-15, a vacation from 2024-01-09 to
  2024-01-11 lies inside the one before. The step for it lowers \<open>accrued\<close>, moves
  \<open>lastVacationDate\<close> back to 2024-01-11, charges minus two days and reports them.
\<close>

theorem overlapped_vacation_counterexample:
  "run (build_workdays Map.empty 738885 738899) initial
     [\<lparr>Start = 738885, End = 738886, Summary = ''Employee start date'', Description = ''''\<rparr>,
      \<lparr>Start = 738892, End = 738899, Summary = ''vacation'', Description = ''''\<rparr>]
   = Inr (\<lparr>startDate = 738885, lastDate = Some 738899, lastVacationDate = Some 738899,
           fte = 1, accrued = 70 / 73, spent = 5\<rparr>,
          [\<lparr>event = \<lparr>Start = 738885, End = 738886, Summary = ''Employee start date'',
                      Description = ''''\<rparr>,
            daysOff = 0, effDaysOff = 0, accruedNow = 0, spentNow = 0\<rparr>,
           \<lparr>event = \<lparr>Start = 738892, End = 738899, Summary = ''vacation'', Description = ''''\<rparr>,
            daysOff = 5, effDaysOff = 5, accruedNow = 70 / 73, spentNow = 5\<rparr>])
   \<and> step (build_workdays Map.empty 738885 738899)
       \<lparr>startDate = 738885, lastDate = Some 738899, lastVacationDate = Some 738899,
        fte = 1, accrued = 70 / 73, spent = 5\<rparr>
       \<lparr>Start = 738893, End = 738895, Summary = ''vacation'', Description = ''''\<rparr>
     = Inr (\<lparr>startDate = 738885, lastDate = Some 738895, lastVacationDate = Some 738895,
             fte = 1, accrued = 50 / 73, spent = 3\<rparr>,
            Some \<lparr>event = \<lparr>Start = 738899, End = 738895, Summary = ''vacation'',
                            Description = ''''\<rparr>,
                  daysOff = - 2, effDaysOff = - 2, accruedNow = 50 / 73, spentNow = 3\<rparr>)"
  by (simp add: ledger_eval cls_start cls_vacation del: rePercent.simps(2))

theorem overlapped_vacation_accrues_witness:
  "\<exists>s' out. step (build_workdays Map.empty 738885 738899)
       \<lparr>startDate = 738885, lastDate = Some 738899, lastVacationDate = Some 738899,
        fte = 1, accrued = 70 / 73, spent = 5\<rparr>
       \<lparr>Start = 738893, End = 738895, Summary = ''vacation'', Description = ''''\<rparr>
         = Inr (s', out)
       \<and> accrued s' = 50 / 73 \<and> lastDate s' = Some 738895 \<and> fte s' = 1
       \<and> startDate s' = 738885"
  using overlapped_vacation_accrues
    [of "\<lparr>Start = 738893, End = 738895, Summary = ''vacation'', Description = ''''\<rparr>"
        "\<lparr>startDate = 738885, lastDate = Some 738899, lastVacationDate = Some 738899,
          fte = 1, accrued = 70 / 73, spent = 5\<rparr>"
        738899 738899 "build_workdays Map.empty 738885 738899"]
  by (simp add: cls_vacation IsZero_def HolidaysPerCalendarDay_def calDaysBetween_closed)

text \<open>
  Claim C2, as amended. For a vacation marker of one calendar day whose summary has the
  half day hint, processed after an employee start, the effective days off are 0.5
  whenever \<open>5 * fte\<close> exceeds 1, that is for every \<open>fte\<close> above 0.2, and \<open>spent\<close> grows
  by 0.5.
\<close>

theorem half_day_booking:
  assumes "\<not> reStartDay (Summary m)" and "reVacation (Summary m)" and "reHalfDay (Summary m)"
    and "End m = Start m + 1"
    and "\<not> IsZero (startDate s)" and "lastDate s = Some ld"
    and "1 < 5 * fte s"
  shows "\<exists>s' snap. step workdays s m = Inr (s', Some snap)
           \<and> effDaysOff snap = 0.5 \<and> spent s' = spent s + 0.5"
proof -
  define m1 where "m1 = patch_start (accrue s m) m"
  have "Start m \<le> Start m1" and e: "End m1 = End m" and h: "Summary m1 = Summary m"
    by (simp_all add: m1_def patch_start_def split: option.splits)
  with assms(4) have "calDaysBetween (Start m1) (End m1) \<le> 1"
    by (intro calDaysBetween_le_one) simp
  then have c: "(of_int (calDaysBetween (Start m1) (End m1)) :: real) \<le> 1"
    by simp
  with assms(7) have "eff_days_off workdays (fte s) m1 = 0.5"
    using assms(3) by (simp add: eff_days_off_def Let_def h)
  then show ?thesis
    by (simp add: vacation_event_reported [OF assms(5,6,1,2)] Let_def accrue_frame
        m1_def [symmetric])
qed

text \<open>
  The claim as it was stated covers every \<open>fte\<close> in (0, 1]. At 10 percent a half day
  on Monday 2024-01-08 costs 0.1 days: one calendar day is at least \<open>5 * 0.1\<close>, so the
  booking is pro-rated and the half day branch is not reached.
\<close>

theorem half_day_booking_counterexample:
  "run (build_workdays Map.empty 738885 738893) initial
     [\<lparr>Start = 738885, End = 738886, Summary = ''Employee start date 10%'', Description = ''''\<rparr>,
      \<lparr>Start = 738892, End = 738893, Summary = ''vacation half day'', Description = ''''\<rparr>]
   = Inr (\<lparr>startDate = 738885, lastDate = Some 738893, lastVacationDate = Some 738893,
           fte = 1 / 10, accrued = 4 / 73, spent = 1 / 10\<rparr>,
          [\<lparr>event = \<lparr>Start = 738885, End = 738886, Summary = ''Employee start date 10%'',
                      Description = ''''\<rparr>,
            daysOff = 0, effDaysOff = 0, accruedNow = 0, spentNow = 0\<rparr>,
           \<lparr>event = \<lparr>Start = 738892, End = 738893, Summary = ''vacation half day'',
                      Description = ''''\<rparr>,
            daysOff = 1, effDaysOff = 1 / 10, accruedNow = 4 / 73, spentNow = 1 / 10\<rparr>])"
  by (simp add: ledger_eval cls_start10 cls_half del: rePercent.simps(2))

theorem half_day_booking_witness:
  "\<exists>s' snap. step (build_workdays Map.empty 738885 738893)
        \<lparr>startDate = 738885, lastDate = Some 738885, lastVacationDate = None,
          fte = 1 / 2, accrued = 0, spent = 0\<rparr>
        \<lparr>Start = 738892, End = 738893, Summary = ''vacation half day'', Description = ''''\<rparr>
         = Inr (s', Some snap)
       \<and> effDaysOff snap = 1 / 2 \<and> spent s' = 1 / 2"
  using half_day_booking
    [of "\<lparr>Start = 738892, End = 738893, Summary = ''vacation half day'', Description = ''''\<rparr>"
        "\<lparr>startDate = 738885, lastDate = Some 738885, lastVacationDate = None,
          fte = 1 / 2, accrued = 0, spent = 0\<rparr>"
        738885 "build_workdays Map.empty 738885 738893"]
  by (simp add: cls_half IsZero_def)

subsection \<open>The employment fraction\<close>

lemma digit_val_range: "is_digit c \<Longrightarrow> 0 \<le> digit_val c \<and> digit_val c \<le> 9"
  by (auto simp: is_digit_def digit_val_def)

lemma digit_no_sign: "is_digit c \<Longrightarrow> c \<noteq> CHR ''+'' \<and> c \<noteq> CHR ''-''"
  by (auto simp: is_digit_def)

lemma Atoi_two_digits:
  assumes "is_digit a" and "is_digit b"
  shows "\<exists>v. Atoi [a, b] = Some v \<and> 0 \<le> v \<and> v \<le> 99"
proof -
  have "atoi_digits [a, b] = Some (10 * digit_val a + digit_val b)"
    using assms by (simp add: atoi_digits_def)
  moreover have "0 \<le> 10 * digit_val a + digit_val b" "10 * digit_val a + digit_val b \<le> 99"
    using digit_val_range [OF assms(1)] digit_val_range [OF assms(2)] by simp_all
  ultimately show ?thesis
    using digit_no_sign [OF assms(1)] by (simp add: Atoi_def)
qed

lemma Atoi_100: "Atoi ''100'' = Some 100"
  by code_simp

lemma rePercent_at_group:
  "rePercent_at s = Some g \<Longrightarrow> (\<exists>a b. g = [a, b] \<and> is_digit a \<and> is_digit b) \<or> g = ''100''"
  by (auto simp: rePercent_at_def split: list.splits if_splits)

lemma rePercent_group:
  "rePercent s = Some g \<Longrightarrow> (\<exists>a b. g = [a, b] \<and> is_digit a \<and> is_digit b) \<or> g = ''100''"
  by (induction s) (auto split: option.splits dest: rePercent_at_group)

lemma rePercent_Atoi:
  "rePercent s = Some g \<Longrightarrow> \<exists>v. Atoi g = Some v \<and> 0 \<le> v \<and> v \<le> 100"
  using rePercent_group [of s g] Atoi_two_digits Atoi_100 by fastforce

lemma start_fte_range: "0 \<le> start_fte ev old \<and> start_fte ev old \<le> 1"
proof -
  define m where "m = (case rePercent (Summary ev) of
                 None \<Rightarrow> rePercent (Description ev)
               | Some g \<Rightarrow> Some g)"
  show ?thesis
  proof (cases m)
    case None
    then show ?thesis by (simp add: start_fte_def m_def [symmetric])
  next
    case (Some g)
    then have "rePercent (Summary ev) = Some g \<or> rePercent (Description ev) = Some g"
      by (auto simp: m_def split: option.splits)
    then obtain v where "Atoi g = Some v" "0 \<le> v" "v \<le> 100"
      using rePercent_Atoi by blast
    with Some show ?thesis by (simp add: start_fte_def m_def [symmetric])
  qed
qed

lemma step_fte_range:
  assumes "0 \<le> fte s \<and> fte s \<le> 1"
  shows "case step workdays s ev of
           Inl (a, s') \<Rightarrow> 0 \<le> fte s' \<and> fte s' \<le> 1
         | Inr (s', out) \<Rightarrow> 0 \<le> fte s' \<and> fte s' \<le> 1"
  using assms start_fte_range [of ev "fte s"]
  by (auto simp: step_def start_event_def vacation_event_def accrue_frame Let_def
      split: option.splits)

lemma run_fte_range:
  "0 \<le> fte s \<and> fte s \<le> 1 \<Longrightarrow>
     (case run workdays s evs of
        Inl (a, s') \<Rightarrow> 0 \<le> fte s' \<and> fte s' \<le> 1
      | Inr (s', out) \<Rightarrow> 0 \<le> fte s' \<and> fte s' \<le> 1)"
proof (induction evs arbitrary: s)
  case Nil
  then show ?case by simp
next
  case (Cons ev evs)
  show ?case
  proof (cases "step workdays s ev")
    case (Inl x)
    with step_fte_range [OF Cons.prems, of workdays ev] show ?thesis
      by (auto split: prod.splits)
  next
    case (Inr y)
    obtain s1 out where y: "y = (s1, out)" by (cases y)
    with Inr step_fte_range [OF Cons.prems, of workdays ev]
    have "0 \<le> fte s1 \<and> fte s1 \<le> 1" by simp
    from Cons.IH [OF this] Inr y show ?thesis
      by (auto split: sum.splits prod.splits)
  qed
qed

text \<open>
  Claim C7, as amended. At every point of processing \<open>fte\<close> lies in the closed interval
  from 0 to 1. It is 0 in the initial ledger (the zero value of the variable). Every
  run from the initial ledger, finished or aborted, ends with \<open>fte\<close> in that interval,
  and every employee start transition, from any ledger and with or without a percentage
  in summary or description, leaves \<open>fte\<close> in it.
\<close>

theorem fte_range:
  "fte initial = 0
   \<and> (run workdays initial evs = Inr (s, out) \<or> run workdays initial evs = Inl (a, s)
        \<longrightarrow> 0 \<le> fte s \<and> fte s \<le> 1)
   \<and> (reStartDay (Summary ev) \<longrightarrow>
        (\<exists>s1 o1. step workdays s0 ev = Inr (s1, o1) \<and> 0 \<le> fte s1 \<and> fte s1 \<le> 1))"
proof -
  have "0 \<le> fte initial \<and> fte initial \<le> 1"
    by (simp add: initial_def)
  from run_fte_range [OF this, of workdays evs]
  have "run workdays initial evs = Inr (s, out) \<or> run workdays initial evs = Inl (a, s)
        \<longrightarrow> 0 \<le> fte s \<and> fte s \<le> 1"
    by auto
  moreover have "reStartDay (Summary ev) \<longrightarrow>
        (\<exists>s1 o1. step workdays s0 ev = Inr (s1, o1) \<and> 0 \<le> fte s1 \<and> fte s1 \<le> 1)"
    using start_fte_range [of ev "fte (accrue s0 ev)"]
    by (auto simp: step_start start_event_def Let_def accrue_frame)
  ultimately show ?thesis
    by (simp add: initial_def)
qed

text \<open>
  The claim as it was stated has \<open>fte\<close> in (0, 1] and 1.0 initially. The initial value
  is 0, and \<^verbatim>\<open>\d\d\<close> also matches \<^verbatim>\<open>00\<close>: an employee start entry with \<^verbatim>\<open>00%\<close> sets
  \<open>fte\<close> to 0.
\<close>

lemma cls_start00:
  "reStartDay ''Employee start date 00%''" "rePercent ''Employee start date 00%'' = Some ''00''"
  "Atoi ''00'' = Some 0"
  by code_simp+

theorem fte_range_counterexample:
  "fte initial = 0
   \<and> run Map.empty initial
       [\<lparr>Start = 738885, End = 738886, Summary = ''Employee start date 00%'', Description = ''''\<rparr>]
     = Inr (\<lparr>startDate = 738885, lastDate = Some 738885, lastVacationDate = None,
             fte = 0, accrued = 0, spent = 0\<rparr>,
            [\<lparr>event = \<lparr>Start = 738885, End = 738886, Summary = ''Employee start date 00%'',
                        Description = ''''\<rparr>,
              daysOff = 0, effDaysOff = 0, accruedNow = 0, spentNow = 0\<rparr>])"
  by (simp add: ledger_eval cls_start00 del: rePercent.simps(2))

theorem fte_range_witness:
  "\<exists>s out. run Map.empty initial
       [\<lparr>Start = 738885, End = 738886, Summary = ''Employee start date 10%'', Description = ''''\<rparr>]
         = Inr (s, out) \<and> fte s = 1 / 10 \<and> 0 \<le> fte s \<and> fte s \<le> 1"
proof -
  have r: "run Map.empty initial
       [\<lparr>Start = 738885, End = 738886, Summary = ''Employee start date 10%'', Description = ''''\<rparr>]
     = Inr (\<lparr>startDate = 738885, lastDate = Some 738885, lastVacationDate = None,
             fte = 1 / 10, accrued = 0, spent = 0\<rparr>,
            [\<lparr>event = \<lparr>Start = 738885, End = 738886, Summary = ''Employee start date 10%'',
                        Description = ''''\<rparr>,
              daysOff = 0, effDaysOff = 0, accruedNow = 0, spentNow = 0\<rparr>])"
    by (simp add: ledger_eval cls_start10 del: rePercent.simps(2))
  from fte_range [of Map.empty _ "\<lparr>startDate = 738885, lastDate = Some 738885, lastVacationDate = None,
             fte = 1 / 10, accrued = 0, spent = 0\<rparr>", THEN conjunct2, THEN conjunct1] r
  have "0 \<le> fte \<lparr>startDate = 738885, lastDate = Some 738885, lastVacationDate = None,
             fte = 1 / 10, accrued = 0, spent = 0\<rparr>
        \<and> fte \<lparr>startDate = 738885, lastDate = Some 738885, lastVacationDate = None,
             fte = 1 / 10, accrued = 0, spent = 0\<rparr> \<le> 1"
    by blast
  with r show ?thesis by simp
qed

subsection \<open>Accrual along a run\<close>

lemma step_lastDate_cases:
  "step workdays s e = Inr (s1, out) \<Longrightarrow> lastDate s1 = Some l1 \<Longrightarrow>
     lastDate s = None \<and> l1 = Start e \<or> l1 = End e \<or> l1 = Start e"
  by (auto simp: step_def start_event_def vacation_event_def accrue_def Let_def
      split: option.splits if_splits)

lemma step_accrued_mono:
  assumes "0 \<le> fte s" and "\<And>ld. lastDate s = Some ld \<Longrightarrow> ld \<le> End e"
    and "step workdays s e = Inr (s1, out)"
  shows "accrued s \<le> accrued s1"
proof -
  have a: "accrued s \<le> accrued (accrue s e)"
  proof (cases "lastDate s")
    case None
    then show ?thesis by (simp add: accrue_None)
  next
    case (Some ld)
    then have "0 \<le> calDaysBetween ld (End e)"
      using assms(2) by (intro calDaysBetween_nonneg) simp
    then have "0 \<le> fte s * HolidaysPerCalendarDay * of_int (calDaysBetween ld (End e))"
      using assms(1) by (simp add: HolidaysPerCalendarDay_def)
    with Some show ?thesis by (simp add: accrue_Some)
  qed
  have "accrued s1 = accrued (accrue s e)"
    using assms(3)
    by (auto simp: step_def start_event_def vacation_event_def Let_def
        split: option.splits if_splits)
  with a show ?thesis by simp
qed

lemma step_fte_nonneg:
  "0 \<le> fte s \<Longrightarrow> step workdays s e = Inr (s1, out) \<Longrightarrow> 0 \<le> fte s1"
  using start_fte_range [of e "fte s"]
  by (auto simp: step_def start_event_def vacation_event_def accrue_frame Let_def
      split: option.splits if_splits)

lemma run_accrued_mono:
  "sorted (map End evs) \<Longrightarrow> \<forall>e \<in> set evs. Start e \<le> End e \<Longrightarrow> 0 \<le> fte s \<Longrightarrow>
   (\<And>ld e. lastDate s = Some ld \<Longrightarrow> e \<in> set evs \<Longrightarrow> ld \<le> End e) \<Longrightarrow>
   run workdays s evs = Inr (s', out) \<Longrightarrow>
     accrued s \<le> accrued s' \<and> 0 \<le> fte s'
     \<and> (\<forall>l x. lastDate s' = Some l \<longrightarrow> (\<forall>e \<in> set evs. End e \<le> x) \<longrightarrow>
            (\<forall>l0. lastDate s = Some l0 \<longrightarrow> l0 \<le> x) \<longrightarrow> l \<le> x)"
proof (induction evs arbitrary: s out)
  case Nil
  then show ?case by auto
next
  case (Cons e evs)
  from Cons.prems(5) obtain s1 o1 outs where
    st: "step workdays s e = Inr (s1, o1)" and rn: "run workdays s1 evs = Inr (s', outs)"
    by (auto split: sum.splits prod.splits)
  have le: "\<And>ld. lastDate s = Some ld \<Longrightarrow> ld \<le> End e"
    using Cons.prems(4) by simp
  have m1: "accrued s \<le> accrued s1"
    using Cons.prems(3) le st by (rule step_accrued_mono)
  have f1: "0 \<le> fte s1"
    using Cons.prems(3) st by (rule step_fte_nonneg)
  have se: "Start e \<le> End e"
    using Cons.prems(2) by simp
  have l1: "\<And>l. lastDate s1 = Some l \<Longrightarrow> l \<le> End e"
    using step_lastDate_cases [OF st] se by auto
  have b1: "\<And>ld e'. lastDate s1 = Some ld \<Longrightarrow> e' \<in> set evs \<Longrightarrow> ld \<le> End e'"
  proof -
    fix ld e' assume "lastDate s1 = Some ld" "e' \<in> set evs"
    then have "ld \<le> End e" "End e \<le> End e'"
      using l1 Cons.prems(1) by auto
    then show "ld \<le> End e'" by simp
  qed
  have srt: "sorted (map End evs)" and wf: "\<forall>e \<in> set evs. Start e \<le> End e"
    using Cons.prems(1,2) by simp_all
  from Cons.IH [OF srt wf f1 b1 rn]
  have ih: "accrued s1 \<le> accrued s'" "0 \<le> fte s'"
    "\<forall>l x. lastDate s' = Some l \<longrightarrow> (\<forall>e \<in> set evs. End e \<le> x) \<longrightarrow>
            (\<forall>l0. lastDate s1 = Some l0 \<longrightarrow> l0 \<le> x) \<longrightarrow> l \<le> x"
    by blast+
  have "\<forall>l x. lastDate s' = Some l \<longrightarrow> (\<forall>e' \<in> set (e # evs). End e' \<le> x) \<longrightarrow>
            (\<forall>l0. lastDate s = Some l0 \<longrightarrow> l0 \<le> x) \<longrightarrow> l \<le> x"
  proof (intro allI impI)
    fix l x
    assume a: "lastDate s' = Some l" "\<forall>e' \<in> set (e # evs). End e' \<le> x"
      "\<forall>l0. lastDate s = Some l0 \<longrightarrow> l0 \<le> x"
    have "\<forall>l0. lastDate s1 = Some l0 \<longrightarrow> l0 \<le> x"
      using l1 a(2) by fastforce
    with ih(3) a show "l \<le> x" by simp
  qed
  with m1 ih(1,2) show ?case by simp
qed

text \<open>
  Claim C8, as amended. For every marker sequence whose end dates are in ascending
  order and in which no marker ends before it starts, \<open>accrued\<close> is non-negative after
  every transition, and each transition adds a non-negative amount: the ledger \<open>s1\<close>
  after \<open>n\<close> markers and the ledger \<open>s2\<close> after one more satisfy
  \<open>0 \<le> accrued s1 \<le> accrued s2\<close>.
\<close>

theorem accrued_nonneg:
  assumes "sorted (map End evs)" and "\<forall>e \<in> set evs. Start e \<le> End e"
    and "run workdays initial (take n evs) = Inr (s1, o1)"
    and "run workdays initial (take (Suc n) evs) = Inr (s2, o2)"
  shows "0 \<le> accrued s1 \<and> accrued s1 \<le> accrued s2"
proof -
  have "sorted (take n (map End evs))"
    using assms(1) by (rule sorted_wrt_take)
  then have srt: "sorted (map End (take n evs))"
    by (simp add: take_map)
  have wf: "\<forall>e \<in> set (take n evs). Start e \<le> End e"
    using assms(2) by (auto dest: in_set_takeD)
  have init: "0 \<le> fte initial" "lastDate initial = None" "accrued initial = 0"
    by (simp_all add: initial_def)
  from run_accrued_mono [OF srt wf init(1) _ assms(3)] init
  have p1: "0 \<le> accrued s1" "0 \<le> fte s1"
    and b: "\<And>l x. lastDate s1 = Some l \<Longrightarrow> (\<forall>e \<in> set (take n evs). End e \<le> x) \<Longrightarrow> l \<le> x"
    by auto
  show ?thesis
  proof (cases "n < length evs")
    case False
    then have "take (Suc n) evs = take n evs" by simp
    with assms(3,4) p1 show ?thesis by simp
  next
    case True
    then have t: "take (Suc n) evs = take n evs @ [evs ! n]"
      by (rule take_Suc_conv_app_nth)
    from assms(3,4) have "\<exists>r. step workdays s1 (evs ! n) = Inr (s2, r)"
      unfolding t by (auto simp: run_append split: sum.splits prod.splits)
    then obtain r where st: "step workdays s1 (evs ! n) = Inr (s2, r)" by blast
    have "\<forall>e \<in> set (take n evs). End e \<le> End (evs ! n)"
    proof
      fix e assume "e \<in> set (take n evs)"
      then obtain i where i: "i < n" "i < length evs" "e = evs ! i"
        by (auto simp: in_set_conv_nth)
      with True assms(1) show "End e \<le> End (evs ! n)"
        by (simp add: sorted_iff_nth_mono)
    qed
    with b have "\<And>l. lastDate s1 = Some l \<Longrightarrow> l \<le> End (evs ! n)" by blast
    with p1(2) have "accrued s1 \<le> accrued s2"
      using st by (rule step_accrued_mono)
    with p1 show ?thesis by simp
  qed
qed

text \<open>
  The claim as it was stated asks for ascending start dates only. A marker that ends
  before the marker processed before it makes the accrual subtract: in the first
  sequence \<open>accrued\<close> falls from 70/73 to 45/73. When the percentage has risen in
  between, more is subtracted than was added: in the second sequence \<open>accrued\<close> ends
  below zero. Both sequences are in ascending order of start date.
\<close>

lemma cls_conference: "\<not> reStartDay ''Conference''" "\<not> reVacation ''Conference''"
  by code_simp+

lemma cls_start100:
  "reStartDay ''Employee start date 100%''"
  "rePercent ''Employee start date 100%'' = Some ''100''"
  by code_simp+

theorem accrued_nonneg_counterexample:
  "run Map.empty initial
     [\<lparr>Start = 738885, End = 738886, Summary = ''Employee start date'', Description = ''''\<rparr>,
      \<lparr>Start = 738892, End = 738899, Summary = ''Conference'', Description = ''''\<rparr>]
   = Inr (\<lparr>startDate = 738885, lastDate = Some 738899, lastVacationDate = None,
           fte = 1, accrued = 70 / 73, spent = 0\<rparr>,
          [\<lparr>event = \<lparr>Start = 738885, End = 738886, Summary = ''Employee start date'',
                      Description = ''''\<rparr>,
            daysOff = 0, effDaysOff = 0, accruedNow = 0, spentNow = 0\<rparr>])
   \<and> run Map.empty initial
     [\<lparr>Start = 738885, End = 738886, Summary = ''Employee start date'', Description = ''''\<rparr>,
      \<lparr>Start = 738892, End = 738899, Summary = ''Conference'', Description = ''''\<rparr>,
      \<lparr>Start = 738893, End = 738894, Summary = ''Team lunch'', Description = ''''\<rparr>]
   = Inr (\<lparr>startDate = 738885, lastDate = Some 738894, lastVacationDate = None,
           fte = 1, accrued = 45 / 73, spent = 0\<rparr>,
          [\<lparr>event = \<lparr>Start = 738885, End = 738886, Summary = ''Employee start date'',
                      Description = ''''\<rparr>,
            daysOff = 0, effDaysOff = 0, accruedNow = 0, spentNow = 0\<rparr>])
   \<and> run Map.empty initial
     [\<lparr>Start = 738885, End = 738886, Summary = ''Employee start date 10%'', Description = ''''\<rparr>,
      \<lparr>Start = 738886, End = 738986, Summary = ''Employee start date 100%'', Description = ''''\<rparr>,
      \<lparr>Start = 738887, End = 738888, Summary = ''Team lunch'', Description = ''''\<rparr>]
   = Inr (\<lparr>startDate = 738886, lastDate = Some 738888, lastVacationDate = None,
           fte = 1, accrued = - (879 / 146), spent = 0\<rparr>,
          [\<lparr>event = \<lparr>Start = 738885, End = 738886, Summary = ''Employee start date 10%'',
                      Description = ''''\<rparr>,
            daysOff = 0, effDaysOff = 0, accruedNow = 0, spentNow = 0\<rparr>,
           \<lparr>event = \<lparr>Start = 738886, End = 738986, Summary = ''Employee start date 100%'',
                      Description = ''''\<rparr>,
            daysOff = 0, effDaysOff = 0, accruedNow = 101 / 146, spentNow = 0\<rparr>])"
  by (simp add: ledger_eval cls_start cls_start10 cls_start100 cls_conference cls_lunch Atoi_100
      del: rePercent.simps(2))

theorem accrued_nonneg_witness:
  "\<exists>s1 o1 s2 o2.
     run Map.empty initial (take 1
       [\<lparr>Start = 738885, End = 738886, Summary = ''Employee start date'', Description = ''''\<rparr>,
        \<lparr>Start = 738887, End = 738888, Summary = ''Team lunch'', Description = ''''\<rparr>])
       = Inr (s1, o1)
     \<and> run Map.empty initial (take 2
       [\<lparr>Start = 738885, End = 738886, Summary = ''Employee start date'', Description = ''''\<rparr>,
        \<lparr>Start = 738887, End = 738888, Summary = ''Team lunch'', Description = ''''\<rparr>])
       = Inr (s2, o2)
     \<and> accrued s1 = 0 \<and> accrued s2 = 15 / 73 \<and> 0 \<le> accrued s1 \<and> accrued s1 \<le> accrued s2"
proof -
  let ?evs = "[\<lparr>Start = 738885, End = 738886, Summary = ''Employee start date'', Description = ''''\<rparr>,
        \<lparr>Start = 738887, End = 738888, Summary = ''Team lunch'', Description = ''''\<rparr>]"
  let ?s1 = "\<lparr>startDate = 738885, lastDate = Some 738885, lastVacationDate = None,
           fte = 1, accrued = 0, spent = 0\<rparr>"
  let ?s2 = "\<lparr>startDate = 738885, lastDate = Some 738888, lastVacationDate = None,
           fte = 1, accrued = 15 / 73, spent = 0\<rparr>"
  let ?o = "[\<lparr>event = \<lparr>Start = 738885, End = 738886, Summary = ''Employee start date'',
                      Description = ''''\<rparr>,
            daysOff = 0, effDaysOff = 0, accruedNow = 0, spentNow = 0\<rparr>]"
  have srt: "sorted (map End ?evs)" and wf: "\<forall>e \<in> set ?evs. Start e \<le> End e"
    by simp_all
  have r1: "run Map.empty initial (take 1 ?evs) = Inr (?s1, ?o)"
    by (simp add: ledger_eval cls_start del: rePercent.simps(2))
  have r2: "run Map.empty initial (take (Suc 1) ?evs) = Inr (?s2, ?o)"
    by (simp add: ledger_eval cls_start cls_lunch del: rePercent.simps(2))
  from accrued_nonneg [OF srt wf r1 r2]
  have "0 \<le> accrued ?s1 \<and> accrued ?s1 \<le> accrued ?s2" .
  with r1 r2 show ?thesis
    by (simp del: run.simps take_Suc_Cons)
qed





subsection \<open>Overlapping bookings\<close>

lemma eff_days_off_full_time:
  "\<not> reHalfDay (Summary m) \<Longrightarrow> eff_days_off workdays 1 m = days_off workdays m"
  by (simp add: eff_days_off_def Let_def)

text \<open>
  Claim C5. Two vacation markers with spans from \<open>a\<close> to \<open>b\<close> and from \<open>c\<close> to \<open>d\<close>,
  \<open>a \<le> c < b \<le> d\<close>, are processed one after the other after an employee start, with
  no earlier booking reaching beyond \<open>a\<close>, and with the work-day index built over a range
  that holds \<open>a\<close> and \<open>d\<close>. Then both are reported, the second with its start moved to
  \<open>b\<close>; their \<open>daysOff\<close> are the working days from \<open>a\<close> to \<open>b\<close> and from \<open>b\<close> to \<open>d\<close>,
  and together the number of working days of the half-open span from \<open>a\<close> to \<open>d\<close>: no
  day between \<open>c\<close> and \<open>b\<close> is counted twice. At full time and without a half day hint
  \<open>spent\<close> grows by this number.
\<close>

theorem overlapping_vacations:
  assumes m1: "\<not> reStartDay (Summary m1)" "reVacation (Summary m1)"
    and m2: "\<not> reStartDay (Summary m2)" "reVacation (Summary m2)"
    and spans: "Start m1 = a" "End m1 = b" "Start m2 = c" "End m2 = d"
    and order: "a \<le> c" "c < b" "b \<le> d"
    and started: "\<not> IsZero (startDate s)" "lastDate s = Some ld"
    and fresh: "case lastVacationDate s of None \<Rightarrow> True | Some lv \<Rightarrow> lv \<le> a"
    and range: "first \<le> a" "d \<le> lastd"
  shows "\<exists>s1 o1 s2 o2.
           step (build_workdays h first lastd) s m1 = Inr (s1, Some o1)
         \<and> step (build_workdays h first lastd) s1 m2 = Inr (s2, Some o2)
         \<and> event o1 = m1 \<and> event o2 = m2\<lparr>Start := b\<rparr>
         \<and> daysOff o1 = of_int (workdays_in h a b) \<and> daysOff o2 = of_int (workdays_in h b d)
         \<and> daysOff o1 + daysOff o2
             = of_int (int (card {x. a \<le> x \<and> x < d \<and> is_workday h x}))
         \<and> (fte s = 1 \<and> \<not> reHalfDay (Summary m1) \<and> \<not> reHalfDay (Summary m2)
              \<longrightarrow> spent s2 = spent s + of_int (int (card {x. a \<le> x \<and> x < d \<and> is_workday h x})))"
proof -
  let ?W = "build_workdays h first lastd"
  define s0 where "s0 = accrue s m1"
  define s1 where "s1 = s0\<lparr>lastVacationDate := Some b,
                            spent := spent s0 + eff_days_off ?W (fte s0) m1\<rparr>"
  define t0 where "t0 = accrue s1 m2"
  define n2 where "n2 = m2\<lparr>Start := b\<rparr>"
  define s2 where "s2 = t0\<lparr>lastVacationDate := Some d,
                            spent := spent t0 + eff_days_off ?W (fte t0) n2\<rparr>"
  have p1: "patch_start s0 m1 = m1"
    using fresh spans(1) by (simp add: s0_def patch_start_def accrue_frame split: option.splits)
  have st1: "step ?W s m1 = Inr (s1, Some \<lparr>event = m1, daysOff = days_off ?W m1,
                    effDaysOff = eff_days_off ?W (fte s0) m1,
                    accruedNow = accrued s0,
                    spentNow = spent s0 + eff_days_off ?W (fte s0) m1\<rparr>)"
    using p1 spans(2)
    by (simp add: vacation_event_reported [OF started m1] Let_def s0_def [symmetric] s1_def)
  have z1: "\<not> IsZero (startDate s1)" and l1: "lastDate s1 = Some b"
    using started spans(2) by (simp_all add: s1_def s0_def accrue_frame accrue_Some)
  have "lastVacationDate t0 = Some b"
    by (simp add: t0_def accrue_frame s1_def)
  then have p2: "patch_start t0 m2 = n2"
    using order(2) spans(3) by (simp add: patch_start_def n2_def)
  have st2: "step ?W s1 m2 = Inr (s2, Some \<lparr>event = n2, daysOff = days_off ?W n2,
                    effDaysOff = eff_days_off ?W (fte t0) n2,
                    accruedNow = accrued t0,
                    spentNow = spent t0 + eff_days_off ?W (fte t0) n2\<rparr>)"
    using p2 spans(4)
    by (simp add: vacation_event_reported [OF z1 l1 m2] Let_def t0_def [symmetric] s2_def)
  have d1: "days_off ?W m1 = of_int (workdays_in h a b)"
    using spans order range workdays_get_diff [of first a b lastd h]
    by (simp add: days_off_def)
  have d2: "days_off ?W n2 = of_int (workdays_in h b d)"
    using spans order range workdays_get_diff [of first b d lastd h]
    by (simp add: days_off_def n2_def)
  have "workdays_in h a b + workdays_in h b d = workdays_in h a d"
    using order by (simp add: workdays_in_split [of a b d])
  then have total: "days_off ?W m1 + days_off ?W n2
      = of_int (int (card {x. a \<le> x \<and> x < d \<and> is_workday h x}))"
    unfolding d1 d2 workdays_in_card [symmetric] by (simp flip: of_int_add)
  have f: "fte s0 = fte s" "fte t0 = fte s" "spent s0 = spent s" "spent t0 = spent s1"
    by (simp_all add: s0_def t0_def s1_def accrue_frame)
  have sp: "fte s = 1 \<and> \<not> reHalfDay (Summary m1) \<and> \<not> reHalfDay (Summary m2)
              \<longrightarrow> spent s2 = spent s + of_int (int (card {x. a \<le> x \<and> x < d \<and> is_workday h x}))"
  proof
    assume full: "fte s = 1 \<and> \<not> reHalfDay (Summary m1) \<and> \<not> reHalfDay (Summary m2)"
    then have "eff_days_off ?W (fte s0) m1 = days_off ?W m1"
      and "eff_days_off ?W (fte t0) n2 = days_off ?W n2"
      by (simp_all add: f eff_days_off_full_time n2_def)
    then have "spent s2 = spent s + (days_off ?W m1 + days_off ?W n2)"
      by (simp add: s2_def s1_def f)
    with total show "spent s2 = spent s + of_int (int (card {x. a \<le> x \<and> x < d \<and> is_workday h x}))"
      by simp
  qed
  show ?thesis
    using st1 st2 d1 d2 total sp by (simp add: n2_def)
qed


lemma cls_holiday: "\<not> reStartDay ''Holiday in Davos''" "reVacation ''Holiday in Davos''"
  "\<not> reHalfDay ''Holiday in Davos''"
  by code_simp+

theorem overlapping_vacations_witness:
  "\<exists>s1 o1 s2 o2.
      step (build_workdays [738885 \<mapsto> ''New Year''] 738885 738899)
        \<lparr>startDate = 738885, lastDate = Some 738885, lastVacationDate = None,
          fte = 1, accrued = 0, spent = 0\<rparr>
        \<lparr>Start = 738892, End = 738897, Summary = ''vacation'', Description = ''''\<rparr>
        = Inr (s1, Some o1)
    \<and> step (build_workdays [738885 \<mapsto> ''New Year''] 738885 738899) s1
        \<lparr>Start = 738895, End = 738899, Summary = ''Holiday in Davos'', Description = ''''\<rparr>
        = Inr (s2, Some o2)
    \<and> Start (event o2) = 738897
    \<and> daysOff o1 = 5 \<and> daysOff o2 = 0 \<and> spent s2 = 5"
proof -
  let ?h = "[738885 \<mapsto> ''New Year'']"
  let ?s = "\<lparr>startDate = 738885, lastDate = Some 738885, lastVacationDate = None,
          fte = 1, accrued = 0, spent = 0\<rparr>"
  let ?m1 = "\<lparr>Start = 738892, End = 738897, Summary = ''vacation'', Description = ''''\<rparr>"
  let ?m2 = "\<lparr>Start = 738895, End = 738899, Summary = ''Holiday in Davos'', Description = ''''\<rparr>"
  have w: "workdays_in ?h 738892 738897 = 5" "workdays_in ?h 738897 738899 = 0"
    "workdays_in ?h 738892 738899 = 5"
    by (simp_all add: workdays_in_def is_workday_def holidays_get_def Weekday_def Sunday_def
        Saturday_def upto_rec1)
  have "\<exists>s1 o1 s2 o2.
           step (build_workdays ?h 738885 738899) ?s ?m1 = Inr (s1, Some o1)
         \<and> step (build_workdays ?h 738885 738899) s1 ?m2 = Inr (s2, Some o2)
         \<and> event o1 = ?m1 \<and> event o2 = ?m2\<lparr>Start := 738897\<rparr>
         \<and> daysOff o1 = of_int (workdays_in ?h 738892 738897)
         \<and> daysOff o2 = of_int (workdays_in ?h 738897 738899)
         \<and> daysOff o1 + daysOff o2
             = of_int (int (card {x. 738892 \<le> x \<and> x < 738899 \<and> is_workday ?h x}))
         \<and> (fte ?s = 1 \<and> \<not> reHalfDay (Summary ?m1) \<and> \<not> reHalfDay (Summary ?m2)
              \<longrightarrow> spent s2 = spent ?s
                    + of_int (int (card {x. 738892 \<le> x \<and> x < 738899 \<and> is_workday ?h x})))"
    by (rule overlapping_vacations [where ld = 738885 and c = 738895])
       (simp_all add: cls_vacation cls_holiday IsZero_def)
  then show ?thesis
    unfolding workdays_in_card [symmetric] w
    by (simp add: cls_vacation cls_holiday del: ex_simps) (elim exE conjE, intro exI conjI, simp_all)
qed

subsection \<open>The description merge\<close>

lemma Split_nl_nonempty: "Split_nl s \<noteq> []"
  by (induction s) (auto split: list.splits)

lemma Split_nl_no_newline: "l \<in> set (Split_nl s) \<Longrightarrow> CHR 0x0A \<notin> set l"
proof (induction s arbitrary: l)
  case Nil
  then show ?case by simp
next
  case (Cons c cs)
  show ?case
  proof (cases "c = CHR 0x0A")
    case True
    with Cons show ?thesis by auto
  next
    case False
    obtain x xs where sp: "Split_nl cs = x # xs"
      using Split_nl_nonempty [of cs] by (cases "Split_nl cs") auto
    with Cons False show ?thesis by auto
  qed
qed

lemma Split_nl_line: "CHR 0x0A \<notin> set l \<Longrightarrow> Split_nl l = [l]"
  by (induction l) auto

lemma Split_nl_append: "CHR 0x0A \<notin> set l \<Longrightarrow> Split_nl (l @ CHR 0x0A # r) = l # Split_nl r"
  by (induction l) auto

lemma Split_Join:
  "ls \<noteq> [] \<Longrightarrow> (\<forall>l \<in> set ls. CHR 0x0A \<notin> set l) \<Longrightarrow> Split_nl (Join_nl ls) = ls"
proof (induction ls rule: Join_nl.induct)
  case 1
  then show ?case by simp
next
  case (2 l)
  then show ?case by (simp add: Split_nl_line)
next
  case (3 l v va)
  then show ?case by (simp add: Split_nl_append)
qed

lemma kept_lines_no_newline:
  "l \<in> set (if 0 < length (Split_nl t) \<and> HasPrefix (last (Split_nl t)) p
             then butlast (Split_nl t) else Split_nl t) \<Longrightarrow> CHR 0x0A \<notin> set l"
  by (auto dest: Split_nl_no_newline in_set_butlastD split: if_splits)

text \<open>
  Claim C10. Merging a rendered balance line into a description is idempotent: for every
  description \<open>t\<close> and every line that \<^verbatim>\<open>updateEvent\<close> can render (it starts with
  \<^verbatim>\<open>vacation from\<close> and holds no newline), merging the line into the result of merging
  it into \<open>t\<close> gives the same text as merging it once. The stale line is replaced, not
  repeated.
\<close>

theorem newDescr_idempotent:
  assumes "HasPrefix line ''vacation from ''" and "CHR 0x0A \<notin> set line"
  shows "newDescr (newDescr t line) line = newDescr t line"
proof -
  define kept where "kept = (if 0 < length (Split_nl t) \<and> HasPrefix (last (Split_nl t)) ''vacation from ''
             then butlast (Split_nl t) else Split_nl t)"
  have once: "newDescr t line = Join_nl (kept @ [line])"
    by (simp add: newDescr_def kept_def Let_def)
  have "\<forall>l \<in> set (kept @ [line]). CHR 0x0A \<notin> set l"
    using assms(2) kept_lines_no_newline [of _ t "''vacation from ''"] by (auto simp: kept_def)
  then have again: "Split_nl (Join_nl (kept @ [line])) = kept @ [line]"
    by (intro Split_Join) auto
  show ?thesis
    unfolding once using assms(1) by (simp add: newDescr_def again)
qed

theorem newDescr_idempotent_witness:
  "newDescr (newDescr ''note\<newline>vacation from 2023-01-01 to 2023-01-02: stale''
       (balanceline ''2024-01-08'' ''2024-01-12'' ''4.0'' ''4.0'' ''0.8'' ''4.0'' ''-3.2''))
     (balanceline ''2024-01-08'' ''2024-01-12'' ''4.0'' ''4.0'' ''0.8'' ''4.0'' ''-3.2'')
   = ''note\<newline>vacation from 2024-01-08 to 2024-01-12: 4.0 days (effective 4.0), accrued 0.8, spent 4.0 balance -3.2''"
proof -
  have p: "HasPrefix (balanceline ''2024-01-08'' ''2024-01-12'' ''4.0'' ''4.0'' ''0.8'' ''4.0'' ''-3.2'') ''vacation from ''"
    by (simp add: HasPrefix_def balanceline_def)
  have n: "CHR 0x0A \<notin> set (balanceline ''2024-01-08'' ''2024-01-12'' ''4.0'' ''4.0'' ''0.8'' ''4.0'' ''-3.2'')"
    by (simp add: balanceline_def)
  have e: "newDescr ''note\<newline>vacation from 2023-01-01 to 2023-01-02: stale''
       (balanceline ''2024-01-08'' ''2024-01-12'' ''4.0'' ''4.0'' ''0.8'' ''4.0'' ''-3.2'')
     = ''note\<newline>vacation from 2024-01-08 to 2024-01-12: 4.0 days (effective 4.0), accrued 0.8, spent 4.0 balance -3.2''"
    by (simp add: newDescr_def balanceline_def HasPrefix_def)
  show ?thesis by (rule trans [OF newDescr_idempotent [OF p n] e])
qed

end
